theory Spec2Isabelle
  imports Main
begin

section \<open>Python strings and the library functions the code calls\<close>

text \<open>
  A Python \<^verbatim>\<open>str\<close> is a sequence of Unicode code points, so a string is a list of
  code points and \<open>length\<close> is Python's \<^verbatim>\<open>len\<close>. ASCII literals are written
  \<open>lit ''...''\<close>; the byte-level BPE word-boundary marker (U+0120) is the code point 288.
\<close>

type_synonym pychar = nat
type_synonym pystr = "pychar list"

definition lit :: "string \<Rightarrow> pystr" where
  "lit s = map of_char s"

text \<open>The code points for which \<^verbatim>\<open>str.isspace\<close> holds; \<^verbatim>\<open>str.strip()\<close> and the
  regular expression class \<^verbatim>\<open>\s\<close> on \<^verbatim>\<open>str\<close> patterns both use this set.\<close>

definition py_isspace :: "pychar \<Rightarrow> bool" where
  "py_isspace c \<longleftrightarrow>
     c \<in> set [9, 10, 11, 12, 13, 28, 29, 30, 31, 32, 133, 160, 5760,
              8232, 8233, 8239, 8287, 12288] \<or> (8192 \<le> c \<and> c \<le> 8202)"

text \<open>\<^verbatim>\<open>s.strip()\<close>\<close>

definition py_strip :: "pystr \<Rightarrow> pystr" where
  "py_strip s = rev (dropWhile py_isspace (rev (dropWhile py_isspace s)))"

text \<open>\<^verbatim>\<open>s.replace(old, new)\<close>: the non-overlapping occurrences of \<open>old\<close>, found from
  the left, are replaced; an empty \<open>old\<close> matches before every character and at the end.\<close>

fun py_replace :: "pystr \<Rightarrow> pystr \<Rightarrow> pystr \<Rightarrow> pystr" where
  "py_replace old new [] = (if old = [] then new else [])"
| "py_replace old new (c # cs) =
     (if old = [] then new @ c # py_replace old new cs
      else if take (length old) (c # cs) = old
           then new @ py_replace old new (drop (length old) (c # cs))
           else c # py_replace old new cs)"

text \<open>\<^verbatim>\<open>old in s\<close>, the substring test.\<close>

fun py_contains :: "pystr \<Rightarrow> pystr \<Rightarrow> bool" where
  "py_contains [] old \<longleftrightarrow> old = []"
| "py_contains (c # cs) old \<longleftrightarrow> take (length old) (c # cs) = old \<or> py_contains cs old"

text \<open>\<^verbatim>\<open>s.startswith(p)\<close>\<close>

definition py_startswith :: "pystr \<Rightarrow> pystr \<Rightarrow> bool" where
  "py_startswith s p \<longleftrightarrow> take (length p) s = p"

text \<open>\<^verbatim>\<open>sep.join(xs)\<close>\<close>

fun py_join :: "pystr \<Rightarrow> pystr list \<Rightarrow> pystr" where
  "py_join sep [] = []"
| "py_join sep [x] = x"
| "py_join sep (x # y # ys) = x @ sep @ py_join sep (y # ys)"

text \<open>\<^verbatim>\<open>str(n)\<close> for a non-negative integer, as an f-string prints a length.\<close>

fun py_str_of_nat :: "nat \<Rightarrow> pystr" where
  "py_str_of_nat n =
     (if n < 10 then [48 + n] else py_str_of_nat (n div 10) @ [48 + n mod 10])"

declare py_str_of_nat.simps [simp del]

datatype py_error = IndexError | KeyError | ZeroDivisionError | ValueError | RuntimeError

section \<open>The BIO grouping pass\<close>

text \<open>
  The loop of \<^verbatim>\<open>Predictor.process_receipt\<close> keeps three variables: the dictionary
  \<^verbatim>\<open>entities\<close>, the label \<^verbatim>\<open>current_entity\<close> (or \<^verbatim>\<open>None\<close>) and the list
  \<^verbatim>\<open>current_text\<close>. No claim depends on the insertion order of the dictionary, so it is
  a map.
\<close>

record gstate =
  entities :: "pystr \<rightharpoonup> pystr list"
  current_entity :: "pystr option"
  current_text :: "pystr list"

definition init_state :: gstate where
  "init_state = \<lparr>entities = Map.empty, current_entity = None, current_text = []\<rparr>"

subsection \<open>The copy in \<^verbatim>\<open>replicate_deployment/layoutlmv3/predict.py\<close> (external OCR)\<close>

text \<open>
  The block \<^verbatim>\<open>if current_entity: entity_type = ...; if entity_type not in entities:
  entities[entity_type] = []; entities[entity_type].append(" ".join(current_text))\<close>
  occurs three times (lines 100-104, 116-120, 125-129). \<^verbatim>\<open>if current_entity\<close> is Python
  truthiness: neither \<^verbatim>\<open>None\<close> nor the empty string. The key is present when the list is
  appended to, so the \<open>None\<close> branch of the last lookup is never taken.
\<close>

definition save_entity_x :: "gstate \<Rightarrow> (pystr \<rightharpoonup> pystr list)" where
  "save_entity_x s =
     (case current_entity s of
        None \<Rightarrow> entities s
      | Some ce \<Rightarrow>
          if ce = [] then entities s
          else
            let entity_type = py_replace (lit ''I-'') [] (py_replace (lit ''B-'') [] ce);
                ents = (if entities s entity_type = None
                        then (entities s)(entity_type \<mapsto> []) else entities s)
            in (case ents entity_type of
                  None \<Rightarrow> ents
                | Some vs \<Rightarrow> ents(entity_type \<mapsto> vs @ [py_join (lit '' '') (current_text s)])))"

text \<open>One iteration of the loop, lines 94-122.\<close>

fun grouping_step_x :: "gstate \<Rightarrow> pystr \<times> pystr \<Rightarrow> gstate" where
  "grouping_step_x s (token, label) =
     (if token \<in> set [lit ''[CLS]'', lit ''[SEP]'', lit ''[PAD]''] then s
      else if py_startswith label (lit ''B-'') then
        \<lparr>entities = save_entity_x s, current_entity = Some label,
         current_text = [py_strip (py_replace [288] (lit '' '') token)]\<rparr>
      else if py_startswith label (lit ''I-'') \<and>
              (case current_entity s of
                 None \<Rightarrow> False
               | Some ce \<Rightarrow> ce \<noteq> [] \<and>
                   py_replace (lit ''I-'') [] label = py_replace (lit ''B-'') [] ce) then
        s\<lparr>current_text := current_text s @ [py_strip (py_replace [288] (lit '' '') token)]\<rparr>
      else
        \<lparr>entities = save_entity_x s, current_entity = None, current_text = []\<rparr>)"

fun grouping_loop_x :: "gstate \<Rightarrow> (pystr \<times> pystr) list \<Rightarrow> gstate" where
  "grouping_loop_x s [] = s"
| "grouping_loop_x s (p # ps) = grouping_loop_x (grouping_step_x s p) ps"

text \<open>The loop from the empty dictionary, then "Save last entity" (lines 124-129).\<close>

definition group_entities_x :: "(pystr \<times> pystr) list \<Rightarrow> (pystr \<rightharpoonup> pystr list)" where
  "group_entities_x ps = save_entity_x (grouping_loop_x init_state ps)"

subsection \<open>The copy in \<^verbatim>\<open>replicate_deployment/predict.py\<close> (EasyOCR)\<close>

text \<open>Lines 131-135, 147-151 and 156-160.\<close>

definition save_entity_e :: "gstate \<Rightarrow> (pystr \<rightharpoonup> pystr list)" where
  "save_entity_e s =
     (case current_entity s of
        None \<Rightarrow> entities s
      | Some ce \<Rightarrow>
          if ce = [] then entities s
          else
            let entity_type = py_replace (lit ''I-'') [] (py_replace (lit ''B-'') [] ce);
                ents = (if entities s entity_type = None
                        then (entities s)(entity_type \<mapsto> []) else entities s)
            in (case ents entity_type of
                  None \<Rightarrow> ents
                | Some vs \<Rightarrow> ents(entity_type \<mapsto> vs @ [py_join (lit '' '') (current_text s)])))"

text \<open>Lines 125-153.\<close>

fun grouping_step_e :: "gstate \<Rightarrow> pystr \<times> pystr \<Rightarrow> gstate" where
  "grouping_step_e s (token, label) =
     (if token \<in> set [lit ''[CLS]'', lit ''[SEP]'', lit ''[PAD]''] then s
      else if py_startswith label (lit ''B-'') then
        \<lparr>entities = save_entity_e s, current_entity = Some label,
         current_text = [py_strip (py_replace [288] (lit '' '') token)]\<rparr>
      else if py_startswith label (lit ''I-'') \<and>
              (case current_entity s of
                 None \<Rightarrow> False
               | Some ce \<Rightarrow> ce \<noteq> [] \<and>
                   py_replace (lit ''I-'') [] label = py_replace (lit ''B-'') [] ce) then
        s\<lparr>current_text := current_text s @ [py_strip (py_replace [288] (lit '' '') token)]\<rparr>
      else
        \<lparr>entities = save_entity_e s, current_entity = None, current_text = []\<rparr>)"

fun grouping_loop_e :: "gstate \<Rightarrow> (pystr \<times> pystr) list \<Rightarrow> gstate" where
  "grouping_loop_e s [] = s"
| "grouping_loop_e s (p # ps) = grouping_loop_e (grouping_step_e s p) ps"

definition group_entities_e :: "(pystr \<times> pystr) list \<Rightarrow> (pystr \<rightharpoonup> pystr list)" where
  "group_entities_e ps = save_entity_e (grouping_loop_e init_state ps)"

subsection \<open>Names for what the loop computes\<close>

text \<open>The tokens the loop passes over, \<^verbatim>\<open>["[CLS]", "[SEP]", "[PAD]"]\<close>.\<close>

definition skip_tokens :: "pystr list" where
  "skip_tokens = [lit ''[CLS]'', lit ''[SEP]'', lit ''[PAD]'']"

text \<open>\<^verbatim>\<open>current_entity.replace("B-", "").replace("I-", "")\<close>, the dictionary key.\<close>

definition entity_type :: "pystr \<Rightarrow> pystr" where
  "entity_type ce = py_replace (lit ''I-'') [] (py_replace (lit ''B-'') [] ce)"

text \<open>\<^verbatim>\<open>token.replace(m, " ").strip()\<close>, where \<open>m\<close> is the one-character string U+0120.\<close>

definition clean_token :: "pystr \<Rightarrow> pystr" where
  "clean_token token = py_strip (py_replace [288] (lit '' '') token)"

text \<open>The condition of the \<^verbatim>\<open>elif\<close> that continues the open entity, given its label.\<close>

definition continues :: "pystr \<Rightarrow> pystr \<Rightarrow> bool" where
  "continues label ce \<longleftrightarrow>
     py_startswith label (lit ''I-'') \<and>
     py_replace (lit ''I-'') [] label = py_replace (lit ''B-'') [] ce"

text \<open>The list stored under a key, empty when the key is absent.\<close>

definition values_of :: "(pystr \<rightharpoonup> pystr list) \<Rightarrow> pystr \<Rightarrow> pystr list" where
  "values_of m k = (case m k of None \<Rightarrow> [] | Some vs \<Rightarrow> vs)"

text \<open>The mapping with the pending accumulator appended under its key: what "flushing"
  the accumulator means when one is open.\<close>

definition flushed :: "gstate \<Rightarrow> (pystr \<rightharpoonup> pystr list)" where
  "flushed s =
     (case current_entity s of
        None \<Rightarrow> entities s
      | Some ce \<Rightarrow> (entities s)(entity_type ce \<mapsto>
          values_of (entities s) (entity_type ce) @ [py_join (lit '' '') (current_text s)]))"

text \<open>A pair that the loop does not pass over and whose label opens an entity stored under \<open>k\<close>.\<close>

definition starts_entity :: "pystr \<Rightarrow> pystr \<times> pystr \<Rightarrow> bool" where
  "starts_entity k p \<longleftrightarrow>
     fst p \<notin> set skip_tokens \<and> py_startswith (snd p) (lit ''B-'') \<and> entity_type (snd p) = k"

text \<open>The specification writes a label as \<^verbatim>\<open>B-<TYPE>\<close> or \<^verbatim>\<open>I-<TYPE>\<close>: the type of a
  label, in its words, is the label without this two-character prefix. A type is plain
  when it holds no further \<^verbatim>\<open>B-\<close> or \<^verbatim>\<open>I-\<close>.\<close>

definition label_type :: "pystr \<Rightarrow> pystr" where
  "label_type l =
     (if py_startswith l (lit ''B-'') \<or> py_startswith l (lit ''I-'') then drop 2 l else l)"

definition plain_type :: "pystr \<Rightarrow> bool" where
  "plain_type t \<longleftrightarrow> \<not> py_contains t (lit ''B-'') \<and> \<not> py_contains t (lit ''I-'')"

text \<open>Whether an accumulator stored under \<open>k\<close> is open, as a count.\<close>

definition open_count :: "gstate \<Rightarrow> pystr \<Rightarrow> nat" where
  "open_count s k =
     (case current_entity s of None \<Rightarrow> 0
      | Some ce \<Rightarrow> if ce \<noteq> [] \<and> entity_type ce = k then 1 else 0)"

text \<open>What \<^verbatim>\<open>current_entity\<close> may hold: nothing, or a label that starts an entity.\<close>

definition open_ok :: "gstate \<Rightarrow> bool" where
  "open_ok s \<longleftrightarrow>
     (case current_entity s of None \<Rightarrow> True | Some ce \<Rightarrow> py_startswith ce (lit ''B-''))"

definition values_nonempty :: "(pystr \<rightharpoonup> pystr list) \<Rightarrow> bool" where
  "values_nonempty m \<longleftrightarrow> (\<forall>k vs. m k = Some vs \<longrightarrow> vs \<noteq> [])"

section \<open>The output formatter\<close>

text \<open>
  \<^verbatim>\<open>entities['STORE'][0]\<close> raises \<^verbatim>\<open>IndexError\<close> on an empty list, so the formatter
  returns an error or the text. The two \<^verbatim>\<open>for\<close> loops append one line per value.
  The newline is the code point 10.
\<close>

subsection \<open>The copy in \<^verbatim>\<open>replicate_deployment/layoutlmv3/predict.py\<close>, lines 131-154\<close>

definition format_output_x :: "(pystr \<rightharpoonup> pystr list) \<Rightarrow> py_error + pystr" where
  "format_output_x ents =
     (case (case ents (lit ''STORE'') of
              None \<Rightarrow> Inr []
            | Some vs \<Rightarrow> (case vs of [] \<Rightarrow> Inl IndexError | v # _ \<Rightarrow> Inr ([] @ [lit ''# '' @ v]))) of
        Inl e \<Rightarrow> Inl e
      | Inr lines1 \<Rightarrow>
     (case (case ents (lit ''DATE'') of
              None \<Rightarrow> Inr lines1
            | Some vs \<Rightarrow> (case vs of [] \<Rightarrow> Inl IndexError
                                    | v # _ \<Rightarrow> Inr (lines1 @ [lit ''Date: '' @ v]))) of
        Inl e \<Rightarrow> Inl e
      | Inr lines2 \<Rightarrow>
        let lines3 = (case ents (lit ''ITEM'') of
                        None \<Rightarrow> lines2
                      | Some items \<Rightarrow>
                          foldl (\<lambda>ls item. ls @ [lit ''- '' @ item])
                            (lines2 @ [10 # lit ''## Items'']) items);
            lines4 = (case ents (lit ''PRICE'') of
                        None \<Rightarrow> lines3
                      | Some prices \<Rightarrow>
                          foldl (\<lambda>ls price. ls @ [lit ''- '' @ price])
                            (lines3 @ [10 # lit ''## Prices'']) prices)
        in (case (case ents (lit ''TOTAL'') of
                    None \<Rightarrow> Inr lines4
                  | Some vs \<Rightarrow> (case vs of [] \<Rightarrow> Inl IndexError
                                          | v # _ \<Rightarrow> Inr (lines4 @ [10 # lit ''## Total: '' @ v]))) of
              Inl e \<Rightarrow> Inl e
            | Inr formatted_lines \<Rightarrow>
                Inr (if formatted_lines \<noteq> [] then py_join [10] formatted_lines
                     else lit ''No structured entities detected.''))))"

subsection \<open>The copy in \<^verbatim>\<open>replicate_deployment/predict.py\<close>, lines 162-185\<close>

definition format_output_e :: "(pystr \<rightharpoonup> pystr list) \<Rightarrow> py_error + pystr" where
  "format_output_e ents =
     (case (case ents (lit ''STORE'') of
              None \<Rightarrow> Inr []
            | Some vs \<Rightarrow> (case vs of [] \<Rightarrow> Inl IndexError | v # _ \<Rightarrow> Inr ([] @ [lit ''# '' @ v]))) of
        Inl e \<Rightarrow> Inl e
      | Inr lines1 \<Rightarrow>
     (case (case ents (lit ''DATE'') of
              None \<Rightarrow> Inr lines1
            | Some vs \<Rightarrow> (case vs of [] \<Rightarrow> Inl IndexError
                                    | v # _ \<Rightarrow> Inr (lines1 @ [lit ''Date: '' @ v]))) of
        Inl e \<Rightarrow> Inl e
      | Inr lines2 \<Rightarrow>
        let lines3 = (case ents (lit ''ITEM'') of
                        None \<Rightarrow> lines2
                      | Some items \<Rightarrow>
                          foldl (\<lambda>ls item. ls @ [lit ''- '' @ item])
                            (lines2 @ [10 # lit ''## Items'']) items);
            lines4 = (case ents (lit ''PRICE'') of
                        None \<Rightarrow> lines3
                      | Some prices \<Rightarrow>
                          foldl (\<lambda>ls price. ls @ [lit ''- '' @ price])
                            (lines3 @ [10 # lit ''## Prices'']) prices)
        in (case (case ents (lit ''TOTAL'') of
                    None \<Rightarrow> Inr lines4
                  | Some vs \<Rightarrow> (case vs of [] \<Rightarrow> Inl IndexError
                                          | v # _ \<Rightarrow> Inr (lines4 @ [10 # lit ''## Total: '' @ v]))) of
              Inl e \<Rightarrow> Inl e
            | Inr formatted_lines \<Rightarrow>
                Inr (if formatted_lines \<noteq> [] then py_join [10] formatted_lines
                     else lit ''No structured entities detected.''))))"

subsection \<open>The report as the specification describes it\<close>

text \<open>These three definitions follow the words of the specification, section by section;
  the formatters above follow the code. They are compared in the claim about the formatter.\<close>

text \<open>The line made from the first value of an entity type, when the type is present.\<close>

definition first_value_line :: "pystr \<Rightarrow> pystr list option \<Rightarrow> pystr list" where
  "first_value_line prefix vo =
     (case vo of None \<Rightarrow> [] | Some vs \<Rightarrow> (case vs of [] \<Rightarrow> [] | v # _ \<Rightarrow> [prefix @ v]))"

text \<open>The heading and one bullet per value of an entity type, when the type is present.\<close>

definition bulleted_section :: "pystr \<Rightarrow> pystr list option \<Rightarrow> pystr list" where
  "bulleted_section heading vo =
     (case vo of None \<Rightarrow> [] | Some vs \<Rightarrow> heading # map (\<lambda>v. lit ''- '' @ v) vs)"

definition report_lines :: "(pystr \<rightharpoonup> pystr list) \<Rightarrow> pystr list" where
  "report_lines ents =
     first_value_line (lit ''# '') (ents (lit ''STORE'')) @
     first_value_line (lit ''Date: '') (ents (lit ''DATE'')) @
     bulleted_section (10 # lit ''## Items'') (ents (lit ''ITEM'')) @
     bulleted_section (10 # lit ''## Prices'') (ents (lit ''PRICE'')) @
     first_value_line (10 # lit ''## Total: '') (ents (lit ''TOTAL''))"

definition no_entities_message :: pystr where
  "no_entities_message = lit ''No structured entities detected.''"

text \<open>A line that starts with \<^verbatim>\<open>#\<close>, \<^verbatim>\<open>D\<close> or a newline, as the first line of a
  report does; the fixed message starts with \<^verbatim>\<open>N\<close>.\<close>

definition line_start_ok :: "pystr \<Rightarrow> bool" where
  "line_start_ok l \<longleftrightarrow> (case l of [] \<Rightarrow> False | c # _ \<Rightarrow> c \<in> set [35, 68, 10])"

section \<open>The predictors\<close>

text \<open>The dictionary \<^verbatim>\<open>process_receipt\<close> returns.\<close>

record receipt_result =
  res_entities :: "pystr \<rightharpoonup> pystr list"
  formatted_text :: pystr
  tokens :: "pystr list"
  predictions :: "pystr list"

text \<open>
  What follows inference in \<^verbatim>\<open>layoutlmv3/predict.py\<close> (lines 89-157): group, format,
  and return the first fifty tokens and labels.
\<close>

definition post_inference_x :: "pystr list \<Rightarrow> pystr list \<Rightarrow> py_error + receipt_result" where
  "post_inference_x toks predicted_labels =
     (let ents = group_entities_x (zip toks predicted_labels) in
      case format_output_x ents of
        Inl e \<Rightarrow> Inl e
      | Inr text \<Rightarrow>
          Inr \<lparr>res_entities = ents, formatted_text = text,
               tokens = take 50 toks, predictions = take 50 predicted_labels\<rparr>)"

text \<open>The same part of \<^verbatim>\<open>predict.py\<close> (lines 120-188).\<close>

definition post_inference_e :: "pystr list \<Rightarrow> pystr list \<Rightarrow> py_error + receipt_result" where
  "post_inference_e toks predicted_labels =
     (let ents = group_entities_e (zip toks predicted_labels) in
      case format_output_e ents of
        Inl e \<Rightarrow> Inl e
      | Inr text \<Rightarrow>
          Inr \<lparr>res_entities = ents, formatted_text = text,
               tokens = take 50 toks, predictions = take 50 predicted_labels\<rparr>)"

text \<open>
  \<^verbatim>\<open>Predictor.process_receipt\<close> of \<^verbatim>\<open>layoutlmv3/predict.py\<close>. The tokenizer, the image
  processor, the model and the label table (lines 53-87) are libraries and downloaded
  weights: they are the parameter \<open>infer\<close>, which returns the tokens and the predicted
  labels or raises.
\<close>

definition process_receipt_x ::
  "('image \<Rightarrow> pystr list \<Rightarrow> int list list \<Rightarrow> py_error + pystr list \<times> pystr list) \<Rightarrow>
   'image \<Rightarrow> pystr list \<Rightarrow> int list list \<Rightarrow> py_error + receipt_result" where
  "process_receipt_x infer img words boxes =
     (if words = [] \<or> boxes = [] then
        Inr \<lparr>res_entities = Map.empty, formatted_text = lit ''No text provided.'',
             tokens = [], predictions = []\<rparr>
      else if length words \<noteq> length boxes then
        Inr \<lparr>res_entities = Map.empty,
             formatted_text = lit ''Error: words ('' @ py_str_of_nat (length words) @
               lit '') and boxes ('' @ py_str_of_nat (length boxes) @ lit '') count mismatch.'',
             tokens = [], predictions = []\<rparr>
      else
        (case infer img words boxes of
           Inl e \<Rightarrow> Inl e
         | Inr (toks, predicted_labels) \<Rightarrow> post_inference_x toks predicted_labels))"

section \<open>The client's box estimator\<close>

text \<open>\<^verbatim>\<open>re.findall(r'\S+', text)\<close>: the maximal runs of non-whitespace, left to right;
  \<open>cur\<close> is the run being read.\<close>

fun nonspace_runs :: "pystr \<Rightarrow> pystr \<Rightarrow> pystr list" where
  "nonspace_runs cur [] = (if cur = [] then [] else [cur])"
| "nonspace_runs cur (c # cs) =
     (if py_isspace c then (if cur = [] then [] else [cur]) @ nonspace_runs [] cs
      else nonspace_runs (cur @ [c]) cs)"

definition py_findall_nonspace :: "pystr \<Rightarrow> pystr list" where
  "py_findall_nonspace text = nonspace_runs [] text"

text \<open>\<^verbatim>\<open>a // b\<close> and \<^verbatim>\<open>a % b\<close> on integers raise on a zero divisor and round to the
  floor, as \<open>div\<close> and \<open>mod\<close> on \<open>int\<close> do; \<^verbatim>\<open>max\<close> of an empty collection raises.\<close>

definition py_floordiv :: "int \<Rightarrow> int \<Rightarrow> py_error + int" where
  "py_floordiv a b = (if b = 0 then Inl ZeroDivisionError else Inr (a div b))"

definition py_mod :: "int \<Rightarrow> int \<Rightarrow> py_error + int" where
  "py_mod a b = (if b = 0 then Inl ZeroDivisionError else Inr (a mod b))"

definition py_max :: "int list \<Rightarrow> py_error + int" where
  "py_max xs = (case xs of [] \<Rightarrow> Inl ValueError | y # ys \<Rightarrow> Inr (fold max ys y))"

text \<open>Sequencing of computations that may raise.\<close>

definition and_then :: "py_error + 'a \<Rightarrow> ('a \<Rightarrow> py_error + 'b) \<Rightarrow> py_error + 'b" where
  "and_then r f = (case r of Inl e \<Rightarrow> Inl e | Inr v \<Rightarrow> f v)"

text \<open>The body of the loop of \<^verbatim>\<open>extract_words_and_boxes\<close> (client.py, lines 40-55) for
  the word at index \<open>i\<close>.\<close>

definition word_box :: "int \<Rightarrow> int \<Rightarrow> int \<Rightarrow> int \<Rightarrow> int \<Rightarrow> int \<Rightarrow> pystr \<Rightarrow> py_error + int list" where
  "word_box words_per_line line_height char_width image_width image_height i word =
     and_then (py_floordiv i words_per_line) (\<lambda>line.
     and_then (py_mod i words_per_line) (\<lambda>pos_in_line.
       let x0 = pos_in_line * char_width * (int (length word) + 1);
           y0 = line * line_height;
           x1 = x0 + int (length word) * char_width;
           y1 = y0 + line_height;
           x0' = max 0 (min x0 (image_width - 1));
           y0' = max 0 (min y0 (image_height - 1));
           x1' = max (x0' + 1) (min x1 image_width);
           y1' = max (y0' + 1) (min y1 image_height)
       in Inr [x0', y0', x1', y1']))"

text \<open>The loop over \<^verbatim>\<open>enumerate(words)\<close>, from index \<open>i\<close>.\<close>

fun word_boxes ::
  "int \<Rightarrow> int \<Rightarrow> int \<Rightarrow> int \<Rightarrow> int \<Rightarrow> int \<Rightarrow> pystr list \<Rightarrow> py_error + int list list" where
  "word_boxes words_per_line line_height char_width image_width image_height i [] = Inr []"
| "word_boxes words_per_line line_height char_width image_width image_height i (word # ws) =
     and_then (word_box words_per_line line_height char_width image_width image_height i word)
       (\<lambda>box.
     and_then (word_boxes words_per_line line_height char_width image_width image_height (i + 1) ws)
       (\<lambda>boxes. Inr (box # boxes)))"

text \<open>
  \<^verbatim>\<open>extract_words_and_boxes\<close> (client.py, lines 10-57). The floating-point expression
  \<^verbatim>\<open>int(len(words) ** 0.5)\<close> is the parameter \<open>root\<close> applied to the length: the
  function is modelled for whatever integer it yields.
\<close>

definition extract_words_and_boxes ::
  "(nat \<Rightarrow> int) \<Rightarrow> pystr \<Rightarrow> int \<Rightarrow> int \<Rightarrow> py_error + pystr list \<times> int list list" where
  "extract_words_and_boxes root text image_width image_height =
     (let words = py_findall_nonspace text in
      if words = [] then Inr ([], [])
      else
        let words_per_line = max 1 (root (length words)) in
        and_then (py_floordiv (int (length words) + words_per_line - 1) words_per_line)
          (\<lambda>num_lines.
        and_then (py_floordiv image_height (max num_lines 1)) (\<lambda>line_height.
        and_then (py_max (map (\<lambda>w. int (length w)) words)) (\<lambda>longest.
        and_then (py_floordiv image_width (max longest 1)) (\<lambda>char_width.
        and_then (word_boxes words_per_line line_height char_width image_width image_height 0 words)
          (\<lambda>boxes. Inr (words, boxes)))))))"

text \<open>A box \<^verbatim>\<open>[x0, y0, x1, y1]\<close> that is not empty and lies inside the image.\<close>

definition box_within :: "int \<Rightarrow> int \<Rightarrow> int list \<Rightarrow> bool" where
  "box_within image_width image_height b \<longleftrightarrow>
     (case b of
        [x0, y0, x1, y1] \<Rightarrow>
          0 \<le> x0 \<and> x0 < x1 \<and> x1 \<le> image_width \<and> 0 \<le> y0 \<and> y0 < y1 \<and> y1 \<le> image_height
      | _ \<Rightarrow> False)"

section \<open>Facts about the pass\<close>

lemma lit_B: "lit ''B-'' = [66, 45]"
  by (simp add: lit_def)

lemma lit_I: "lit ''I-'' = [73, 45]"
  by (simp add: lit_def)

lemma startswith_B_nonempty: "py_startswith l (lit ''B-'') \<Longrightarrow> l \<noteq> []"
  by (auto simp: py_startswith_def lit_B)

lemma startswith_I_not_B: "py_startswith l (lit ''I-'') \<Longrightarrow> \<not> py_startswith l (lit ''B-'')"
  by (cases l) (auto simp: py_startswith_def lit_B lit_I)

subsection \<open>The key of a label whose type holds no further prefix\<close>

lemma py_replace_absent:
  "old \<noteq> [] \<Longrightarrow> \<not> py_contains s old \<Longrightarrow> py_replace old new s = s"
  by (induction s) auto

lemma py_replace_prefix:
  "old \<noteq> [] \<Longrightarrow> py_replace old new (old @ s) = new @ py_replace old new s"
  by (cases old) auto

lemma entity_type_plain:
  assumes "\<not> py_contains t (lit ''B-'')" and "\<not> py_contains t (lit ''I-'')"
  shows "entity_type (lit ''B-'' @ t) = t"
proof -
  have "py_replace (lit ''B-'') [] (lit ''B-'' @ t) = t"
    using assms(1) py_replace_prefix [of "lit ''B-''" "[]" t]
    by (simp add: py_replace_absent lit_B)
  then show ?thesis
    using assms(2) by (simp add: entity_type_def py_replace_absent lit_I)
qed

lemma continues_plain:
  assumes "\<not> py_contains t (lit ''B-'')" and "\<not> py_contains t (lit ''I-'')"
    and "\<not> py_contains u (lit ''B-'')" and "\<not> py_contains u (lit ''I-'')"
  shows "continues (lit ''I-'' @ u) (lit ''B-'' @ t) \<longleftrightarrow> u = t"
proof -
  have "py_replace (lit ''B-'') [] (lit ''B-'' @ t) = t"
    using assms(1) py_replace_prefix [of "lit ''B-''" "[]" t]
    by (simp add: py_replace_absent lit_B)
  moreover have "py_replace (lit ''I-'') [] (lit ''I-'' @ u) = u"
    using assms(4) py_replace_prefix [of "lit ''I-''" "[]" u]
    by (simp add: py_replace_absent lit_I)
  ultimately show ?thesis
    by (simp add: continues_def py_startswith_def)
qed

lemma startswith_split:
  assumes "py_startswith l p" and "length p = 2"
  shows "l = p @ drop 2 l"
proof -
  have "take 2 l = p" using assms by (simp add: py_startswith_def)
  then show ?thesis by (metis append_take_drop_id)
qed

lemma startswith_B_split: "py_startswith l (lit ''B-'') \<Longrightarrow> l = lit ''B-'' @ label_type l"
  using startswith_split [of l "lit ''B-''"] by (simp add: label_type_def) (simp add: lit_def)

lemma startswith_I_split: "py_startswith l (lit ''I-'') \<Longrightarrow> l = lit ''I-'' @ label_type l"
  using startswith_split [of l "lit ''I-''"] by (simp add: label_type_def) (simp add: lit_def)

lemma entity_type_label_type:
  assumes "py_startswith l (lit ''B-'')" and "plain_type (label_type l)"
  shows "entity_type l = label_type l"
  using entity_type_plain [of "label_type l"] startswith_B_split [OF assms(1)] assms(2)
  by (simp add: plain_type_def)

lemma continues_label_type:
  assumes "py_startswith ce (lit ''B-'')" and "py_startswith l (lit ''I-'')"
    and "plain_type (label_type ce)" and "plain_type (label_type l)"
  shows "continues l ce \<longleftrightarrow> label_type l = label_type ce"
  using continues_plain [of "label_type ce" "label_type l"]
    startswith_B_split [OF assms(1)] startswith_I_split [OF assms(2)] assms(3,4)
  by (simp add: plain_type_def)

lemma py_replace_marker_absent: "288 \<notin> set w \<Longrightarrow> py_replace [288] new w = w"
  by (induction w) auto

lemma clean_token_plain:
  assumes "288 \<notin> set w"
  shows "clean_token w = py_strip w" and "clean_token (288 # w) = py_strip w"
  using assms
  by (simp_all add: clean_token_def py_replace_marker_absent py_strip_def py_isspace_def lit_def)

subsection \<open>The two copies compute the same\<close>

lemma save_entity_e_x: "save_entity_e s = save_entity_x s"
  by (simp add: save_entity_e_def save_entity_x_def)

lemma grouping_step_e_x: "grouping_step_e s p = grouping_step_x s p"
  by (cases p) (simp add: save_entity_e_x)

lemma grouping_loop_e_x: "grouping_loop_e s ps = grouping_loop_x s ps"
  by (induction ps arbitrary: s) (simp_all add: grouping_step_e_x)

lemma grouping_loop_e_eq: "grouping_loop_e = grouping_loop_x"
  by (intro ext) (rule grouping_loop_e_x)

lemma group_entities_e_x: "group_entities_e ps = group_entities_x ps"
  by (simp add: group_entities_e_def group_entities_x_def grouping_loop_e_x save_entity_e_x)

lemma format_output_e_x: "format_output_e ents = format_output_x ents"
  by (simp add: format_output_e_def format_output_x_def)

subsection \<open>One iteration, branch by branch\<close>

lemma save_entity_x_closed:
  "save_entity_x s =
     (case current_entity s of
        None \<Rightarrow> entities s
      | Some ce \<Rightarrow>
          if ce = [] then entities s
          else (entities s)(entity_type ce \<mapsto>
                  values_of (entities s) (entity_type ce) @ [py_join (lit '' '') (current_text s)]))"
  by (auto simp: save_entity_x_def entity_type_def values_of_def Let_def split: option.splits)

lemma save_entity_x_flushed: "open_ok s \<Longrightarrow> save_entity_x s = flushed s"
  by (auto simp: save_entity_x_closed flushed_def open_ok_def split: option.splits
      dest: startswith_B_nonempty)

lemma step_x_skip: "token \<in> set skip_tokens \<Longrightarrow> grouping_step_x s (token, label) = s"
  by (auto simp: skip_tokens_def)

lemma step_x_begin:
  "token \<notin> set skip_tokens \<Longrightarrow> py_startswith label (lit ''B-'') \<Longrightarrow>
   grouping_step_x s (token, label) =
     \<lparr>entities = save_entity_x s, current_entity = Some label, current_text = [clean_token token]\<rparr>"
  by (auto simp: skip_tokens_def clean_token_def)

lemma step_x_inside:
  "token \<notin> set skip_tokens \<Longrightarrow> current_entity s = Some ce \<Longrightarrow> ce \<noteq> [] \<Longrightarrow>
   continues label ce \<Longrightarrow>
   grouping_step_x s (token, label) = s\<lparr>current_text := current_text s @ [clean_token token]\<rparr>"
  by (auto simp: skip_tokens_def clean_token_def continues_def startswith_I_not_B)

lemma step_x_other:
  "token \<notin> set skip_tokens \<Longrightarrow> \<not> py_startswith label (lit ''B-'') \<Longrightarrow>
   \<not> (\<exists>ce. current_entity s = Some ce \<and> ce \<noteq> [] \<and> continues label ce) \<Longrightarrow>
   grouping_step_x s (token, label) =
     \<lparr>entities = save_entity_x s, current_entity = None, current_text = []\<rparr>"
  by (auto simp: skip_tokens_def continues_def split: option.splits)

lemma open_ok_step: "open_ok s \<Longrightarrow> open_ok (grouping_step_x s p)"
  by (cases p) (simp add: open_ok_def)

lemma values_nonempty_save: "values_nonempty (entities s) \<Longrightarrow> values_nonempty (save_entity_x s)"
  by (auto simp: save_entity_x_closed values_nonempty_def split: option.splits)

lemma values_nonempty_step:
  "values_nonempty (entities s) \<Longrightarrow> values_nonempty (entities (grouping_step_x s p))"
  by (cases p) (simp add: values_nonempty_save)

lemmas run_simps = lit_def py_startswith_def py_strip_def py_isspace_def init_state_def
  skip_tokens_def clean_token_def entity_type_def save_entity_x_def grouping_step_x.simps
  group_entities_x_def values_of_def flushed_def continues_def Let_def starts_entity_def

declare grouping_step_x.simps [simp del]

subsection \<open>The loop\<close>

lemma grouping_loop_x_append:
  "grouping_loop_x s (xs @ ys) = grouping_loop_x (grouping_loop_x s xs) ys"
  by (induction xs arbitrary: s) simp_all

lemma grouping_loop_x_take_Suc:
  assumes "i < length ps"
  shows "grouping_loop_x s (take (Suc i) ps) =
         grouping_step_x (grouping_loop_x s (take i ps)) (ps ! i)"
  using assms by (simp add: take_Suc_conv_app_nth grouping_loop_x_append)

lemma open_ok_loop: "open_ok s \<Longrightarrow> open_ok (grouping_loop_x s ps)"
  by (induction ps arbitrary: s) (simp_all add: open_ok_step)

lemma open_ok_init: "open_ok init_state"
  by (simp add: open_ok_def init_state_def)

lemma open_ok_prefix: "open_ok (grouping_loop_x init_state ps)"
  by (rule open_ok_loop [OF open_ok_init])

lemma open_label_B:
  "current_entity (grouping_loop_x init_state ps) = Some ce \<Longrightarrow> py_startswith ce (lit ''B-'')"
  using open_ok_prefix [of ps] by (simp add: open_ok_def)

lemma values_nonempty_loop:
  "values_nonempty (entities s) \<Longrightarrow> values_nonempty (entities (grouping_loop_x s ps))"
  by (induction ps arbitrary: s) (simp_all add: values_nonempty_step)

lemma values_nonempty_group: "values_nonempty (group_entities_x ps)"
  unfolding group_entities_x_def
  by (rule values_nonempty_save, rule values_nonempty_loop)
     (simp add: values_nonempty_def init_state_def)

subsection \<open>Counting the values stored under a key\<close>

lemma save_count:
  "length (values_of (save_entity_x s) k) = length (values_of (entities s) k) + open_count s k"
  by (auto simp: save_entity_x_closed open_count_def values_of_def split: option.splits)

lemma step_count:
  "length (values_of (entities (grouping_step_x s p)) k) + open_count (grouping_step_x s p) k =
   length (values_of (entities s) k) + open_count s k + (if starts_entity k p then 1 else 0)"
proof (cases p)
  case (Pair token label)
  show ?thesis
  proof (cases "token \<in> set skip_tokens")
    case True
    then show ?thesis by (simp add: Pair step_x_skip starts_entity_def)
  next
    case ns: False
    show ?thesis
    proof (cases "py_startswith label (lit ''B-'')")
      case True
      then show ?thesis using ns startswith_B_nonempty [OF True]
        by (simp add: Pair step_x_begin save_count starts_entity_def open_count_def)
    next
      case nb: False
      show ?thesis
      proof (cases "\<exists>ce. current_entity s = Some ce \<and> ce \<noteq> [] \<and> continues label ce")
        case True
        then obtain ce where "current_entity s = Some ce" "ce \<noteq> []" "continues label ce"
          by blast
        then show ?thesis using ns nb
          by (simp add: Pair step_x_inside starts_entity_def open_count_def)
      next
        case False
        then have "grouping_step_x s (token, label) =
            \<lparr>entities = save_entity_x s, current_entity = None, current_text = []\<rparr>"
          using ns nb by (rule_tac step_x_other)
        then show ?thesis using nb
          by (simp add: Pair save_count starts_entity_def open_count_def)
      qed
    qed
  qed
qed

lemma loop_count:
  "length (values_of (entities (grouping_loop_x s ps)) k) + open_count (grouping_loop_x s ps) k =
   length (values_of (entities s) k) + open_count s k + length (filter (starts_entity k) ps)"
proof (induction ps arbitrary: s)
  case Nil
  then show ?case by simp
next
  case (Cons p ps)
  show ?case using Cons.IH [of "grouping_step_x s p"] step_count [of s p k] by simp
qed

lemma group_count:
  "length (values_of (group_entities_x ps) k) = length (filter (starts_entity k) ps)"
  using loop_count [of init_state ps k]
  by (simp add: group_entities_x_def save_count)
     (simp add: init_state_def values_of_def open_count_def)

section \<open>One position of the pass, in the code's own terms\<close>

text \<open>
  The state before position \<open>i\<close> is the loop run on the first \<open>i\<close> pairs, the state after
  it the loop run on the first \<open>i + 1\<close>. The lemmas of this section describe the code as
  it is written: an accumulator is stored under \<open>entity_type\<close> of its label, and an entity
  is continued when \<open>continues\<close> holds.
\<close>

lemma at_begin_label:
  assumes "i < length ps" and "ps ! i = (token, label)"
    and "token \<notin> set skip_tokens" and "py_startswith label (lit ''B-'')"
  shows "grouping_loop_x init_state (take (Suc i) ps) =
         \<lparr>entities = flushed (grouping_loop_x init_state (take i ps)),
          current_entity = Some label, current_text = [clean_token token]\<rparr>"
  using assms
  by (simp add: grouping_loop_x_take_Suc step_x_begin save_entity_x_flushed [OF open_ok_prefix])

lemma at_continuing_label:
  assumes "i < length ps" and "ps ! i = (token, label)"
    and "token \<notin> set skip_tokens"
    and "current_entity (grouping_loop_x init_state (take i ps)) = Some ce"
    and "continues label ce"
  shows "grouping_loop_x init_state (take (Suc i) ps) =
         (grouping_loop_x init_state (take i ps))
           \<lparr>current_text :=
              current_text (grouping_loop_x init_state (take i ps)) @ [clean_token token]\<rparr>"
proof -
  have "ce \<noteq> []" using open_label_B [OF assms(4)] by (rule startswith_B_nonempty)
  then show ?thesis
    using assms by (simp add: grouping_loop_x_take_Suc step_x_inside)
qed

lemma at_other_label:
  assumes "i < length ps" and "ps ! i = (token, label)"
    and "token \<notin> set skip_tokens" and "\<not> py_startswith label (lit ''B-'')"
    and "\<forall>ce. current_entity (grouping_loop_x init_state (take i ps)) = Some ce
             \<longrightarrow> \<not> continues label ce"
  shows "grouping_loop_x init_state (take (Suc i) ps) =
         \<lparr>entities = flushed (grouping_loop_x init_state (take i ps)),
          current_entity = None, current_text = []\<rparr>"
proof -
  have "grouping_step_x (grouping_loop_x init_state (take i ps)) (token, label) =
        \<lparr>entities = save_entity_x (grouping_loop_x init_state (take i ps)),
         current_entity = None, current_text = []\<rparr>"
    using assms(3,4,5) by (intro step_x_other) auto
  then show ?thesis using assms(1,2)
    by (simp add: grouping_loop_x_take_Suc save_entity_x_flushed [OF open_ok_prefix])
qed

lemma after_last_pair: "group_entities_x ps = flushed (grouping_loop_x init_state ps)"
  by (simp add: group_entities_x_def save_entity_x_flushed [OF open_ok_prefix])

lemma keys_from_starts:
  assumes "group_entities_x ps k = Some vs"
  shows "vs \<noteq> [] \<and> (\<exists>p \<in> set ps. starts_entity k p)"
proof -
  have ne: "vs \<noteq> []"
    using values_nonempty_group [of ps] assms by (auto simp: values_nonempty_def)
  have "length (values_of (group_entities_x ps) k) = length vs"
    using assms by (simp add: values_of_def)
  then have "filter (starts_entity k) ps \<noteq> []"
    using ne group_count [of ps k] by auto
  then obtain p where "p \<in> set ps" "starts_entity k p"
    by (metis filter_False)
  then show ?thesis using ne by blast
qed

lemma flushed_plain:
  assumes "open_ok s" and "\<forall>ce. current_entity s = Some ce \<longrightarrow> plain_type (label_type ce)"
  shows "flushed s =
         (case current_entity s of
            None \<Rightarrow> entities s
          | Some ce \<Rightarrow> (entities s)(label_type ce \<mapsto>
              values_of (entities s) (label_type ce) @ [py_join (lit '' '') (current_text s)]))"
  using assms
  by (auto simp: flushed_def open_ok_def entity_type_label_type split: option.splits)

section \<open>The claims about the grouping pass\<close>

text \<open>
  The theorems speak of either copy of the loop: \<open>loop\<close> is \<open>grouping_loop_e\<close> or
  \<open>grouping_loop_x\<close>, and \<open>grouped\<close> is \<open>group_entities_e\<close> or \<open>group_entities_x\<close>.
\<close>

text \<open>
  Claim C1, at an input where the code departs from it. The entity opened by
  \<^verbatim>\<open>B-SUB-TOTAL\<close> has the type \<^verbatim>\<open>SUB-TOTAL\<close>. When the next \<^verbatim>\<open>B-\<close> label flushes it, the
  code stores its text under \<^verbatim>\<open>SUTOTAL\<close> and nothing under \<^verbatim>\<open>SUB-TOTAL\<close>:
  \<^verbatim>\<open>replace("B-", "")\<close> deletes the \<^verbatim>\<open>B-\<close> inside the type as well as the prefix.
\<close>

theorem begin_label_flush_key:
  "entities (grouping_loop_x init_state
      [(288 # lit ''12.00'', lit ''B-SUB-TOTAL''), (288 # lit ''1.00'', lit ''B-TAX'')])
      (lit ''SUB-TOTAL'') = None \<and>
   entities (grouping_loop_x init_state
      [(288 # lit ''12.00'', lit ''B-SUB-TOTAL''), (288 # lit ''1.00'', lit ''B-TAX'')])
      (lit ''SUTOTAL'') = Some [lit ''12.00''] \<and>
   entities (grouping_loop_e init_state
      [(288 # lit ''12.00'', lit ''B-SUB-TOTAL''), (288 # lit ''1.00'', lit ''B-TAX'')])
      (lit ''SUTOTAL'') = Some [lit ''12.00''] \<and>
   label_type (lit ''B-SUB-TOTAL'') = lit ''SUB-TOTAL''"
  by (simp add: grouping_loop_e_x) (simp add: run_simps label_type_def)

text \<open>
  Where the type of the open accumulator is plain, the code does what C1 says: at a
  position that is not passed over and whose label starts with \<^verbatim>\<open>B-\<close>, the open
  accumulator is appended to the list of its type, and the new accumulator holds the new
  label and the cleaned token.
\<close>

lemma begin_label_on_plain_types:
  assumes "loop = grouping_loop_e \<or> loop = grouping_loop_x"
    and "i < length ps" and "ps ! i = (token, label)"
    and "token \<notin> set skip_tokens" and "py_startswith label (lit ''B-'')"
    and "\<forall>ce. current_entity (loop init_state (take i ps)) = Some ce \<longrightarrow> plain_type (label_type ce)"
  shows "let before = loop init_state (take i ps); after = loop init_state (take (Suc i) ps) in
           entities after =
             (case current_entity before of
                None \<Rightarrow> entities before
              | Some ce \<Rightarrow> (entities before)(label_type ce \<mapsto>
                  values_of (entities before) (label_type ce) @
                    [py_join (lit '' '') (current_text before)])) \<and>
           current_entity after = Some label \<and>
           current_text after = [clean_token token]"
proof -
  have l: "loop = grouping_loop_x" using assms(1) by (auto simp: grouping_loop_e_eq)
  show ?thesis
    using at_begin_label [OF assms(2-5)] flushed_plain [OF open_ok_prefix, of "take i ps"] assms(6)
    by (simp add: l Let_def)
qed

text \<open>
  Claim C2, as the code has it by design. At every position that is not passed over,
  whose label starts with \<^verbatim>\<open>I-\<close> and whose type equals the type of the open accumulator,
  that type being plain, the token with every marker U+0120 replaced by a space and then
  trimmed of whitespace is appended to the accumulator; the mapping and the open label
  stay as they are. Of types that hold a further \<^verbatim>\<open>B-\<close> or \<^verbatim>\<open>I-\<close> the theorem says
  nothing.
\<close>

theorem inside_label_appends_token:
  assumes "loop = grouping_loop_e \<or> loop = grouping_loop_x"
    and "i < length ps" and "ps ! i = (token, label)"
    and "token \<notin> set skip_tokens"
    and "py_startswith label (lit ''I-'')"
    and "current_entity (loop init_state (take i ps)) = Some ce"
    and "label_type label = label_type ce"
    and "plain_type (label_type ce)"
  shows "let before = loop init_state (take i ps); after = loop init_state (take (Suc i) ps) in
           current_text after = current_text before @ [clean_token token] \<and>
           entities after = entities before \<and>
           current_entity after = Some ce"
proof -
  have l: "loop = grouping_loop_x" using assms(1) by (auto simp: grouping_loop_e_eq)
  have ce: "current_entity (grouping_loop_x init_state (take i ps)) = Some ce"
    using assms(6) by (simp add: l)
  have "continues label ce"
    using continues_label_type [OF open_label_B [OF ce] assms(5)] assms(7,8) by simp
  then show ?thesis
    using at_continuing_label [OF assms(2-4) ce] ce by (simp add: l Let_def)
qed

theorem inside_label_appends_token_witness:
  "(1::nat) < length [(288 # lit ''Iced'', lit ''B-ITEM''), (288 # lit ''Tea'', lit ''I-ITEM'')] \<and>
   288 # lit ''Tea'' \<notin> set skip_tokens \<and>
   py_startswith (lit ''I-ITEM'') (lit ''I-'') \<and>
   current_entity (grouping_loop_x init_state
      (take 1 [(288 # lit ''Iced'', lit ''B-ITEM''), (288 # lit ''Tea'', lit ''I-ITEM'')]))
     = Some (lit ''B-ITEM'') \<and>
   label_type (lit ''I-ITEM'') = label_type (lit ''B-ITEM'') \<and>
   plain_type (label_type (lit ''B-ITEM'')) \<and>
   current_text (grouping_loop_x init_state
      [(288 # lit ''Iced'', lit ''B-ITEM''), (288 # lit ''Tea'', lit ''I-ITEM'')])
     = [lit ''Iced'', lit ''Tea''] \<and>
   entities (grouping_loop_x init_state
      [(288 # lit ''Iced'', lit ''B-ITEM''), (288 # lit ''Tea'', lit ''I-ITEM'')]) (lit ''ITEM'') = None"
  using inside_label_appends_token [of grouping_loop_x 1
      "[(288 # lit ''Iced'', lit ''B-ITEM''), (288 # lit ''Tea'', lit ''I-ITEM'')]"
      "288 # lit ''Tea''" "lit ''I-ITEM''" "lit ''B-ITEM''"]
  by (simp add: run_simps label_type_def plain_type_def)

text \<open>
  Where C2 as worded fails. The code replaces every marker by a space, not only a leading
  one: the token of the code points a, U+0120, b is appended as \<^verbatim>\<open>a b\<close>, and the token of
  two markers and c as \<^verbatim>\<open>c\<close>.
\<close>

theorem inside_label_counterexample:
  "current_text (grouping_loop_x init_state
      [(lit ''x'', lit ''B-ITEM''), ([97, 288, 98], lit ''I-ITEM'')]) = [lit ''x'', lit ''a b''] \<and>
   current_text (grouping_loop_x init_state
      [(lit ''x'', lit ''B-ITEM''), ([288, 288, 99], lit ''I-ITEM'')]) = [lit ''x'', lit ''c'']"
  by (simp add: run_simps)

text \<open>
  Claim C3, at an input where the code departs from it. \<^verbatim>\<open>I-SUTOTAL\<close> does not match
  the type \<^verbatim>\<open>SUB-TOTAL\<close> of the open accumulator, yet the code neither flushes nor
  resets: it appends the token, and the final mapping holds both texts as one entity. The
  test compares \<^verbatim>\<open>label.replace("I-", "")\<close> with \<^verbatim>\<open>current_entity.replace("B-", "")\<close>,
  and the second deletes the \<^verbatim>\<open>B-\<close> inside the type.
\<close>

theorem mismatched_inside_label_joins:
  "label_type (lit ''I-SUTOTAL'') \<noteq> label_type (lit ''B-SUB-TOTAL'') \<and>
   current_entity (grouping_loop_x init_state
      [(288 # lit ''12.00'', lit ''B-SUB-TOTAL''), (288 # lit ''x'', lit ''I-SUTOTAL'')])
     = Some (lit ''B-SUB-TOTAL'') \<and>
   current_text (grouping_loop_x init_state
      [(288 # lit ''12.00'', lit ''B-SUB-TOTAL''), (288 # lit ''x'', lit ''I-SUTOTAL'')])
     = [lit ''12.00'', lit ''x''] \<and>
   group_entities_x
      [(288 # lit ''12.00'', lit ''B-SUB-TOTAL''), (288 # lit ''x'', lit ''I-SUTOTAL'')]
      (lit ''SUTOTAL'') = Some [lit ''12.00 x''] \<and>
   group_entities_e
      [(288 # lit ''12.00'', lit ''B-SUB-TOTAL''), (288 # lit ''x'', lit ''I-SUTOTAL'')]
      (lit ''SUTOTAL'') = Some [lit ''12.00 x'']"
  by (simp add: group_entities_e_x) (simp add: run_simps label_type_def)

text \<open>
  The same test fails the other way round: \<^verbatim>\<open>I-WI-FI\<close> after \<^verbatim>\<open>B-WI-FI\<close>, the same type,
  closes the entity instead of continuing it.
\<close>

lemma same_type_not_continued:
  "label_type (lit ''I-WI-FI'') = label_type (lit ''B-WI-FI'') \<and>
   current_entity (grouping_loop_x init_state
      [(lit ''x'', lit ''B-WI-FI''), (lit ''y'', lit ''I-WI-FI'')]) = None \<and>
   current_text (grouping_loop_x init_state
      [(lit ''x'', lit ''B-WI-FI''), (lit ''y'', lit ''I-WI-FI'')]) = []"
  by (simp add: run_simps label_type_def)

text \<open>
  Where the types are plain, the code does what C3 says: at a position that is not passed
  over, whose label neither starts with \<^verbatim>\<open>B-\<close> nor is an \<^verbatim>\<open>I-\<close> label of the open
  accumulator's type, the pending accumulator is appended to the list of its type and no
  entity is open afterwards; and after the last pair the accumulator still open is
  appended as well.
\<close>

lemma other_label_on_plain_types:
  assumes "(loop, grouped) = (grouping_loop_e, group_entities_e) \<or>
           (loop, grouped) = (grouping_loop_x, group_entities_x)"
    and "\<forall>p \<in> set ps. plain_type (label_type (snd p))"
  shows "(\<forall>i token label.
            i < length ps \<and> ps ! i = (token, label) \<and> token \<notin> set skip_tokens \<and>
            \<not> py_startswith label (lit ''B-'') \<and>
            \<not> (py_startswith label (lit ''I-'') \<and>
               (\<exists>ce. current_entity (loop init_state (take i ps)) = Some ce \<and>
                     label_type label = label_type ce))
            \<longrightarrow>
            (let before = loop init_state (take i ps); after = loop init_state (take (Suc i) ps) in
               entities after =
                 (case current_entity before of
                    None \<Rightarrow> entities before
                  | Some ce \<Rightarrow> (entities before)(label_type ce \<mapsto>
                      values_of (entities before) (label_type ce) @
                        [py_join (lit '' '') (current_text before)])) \<and>
               current_entity after = None \<and> current_text after = [])) \<and>
         grouped ps =
           (case current_entity (loop init_state ps) of
              None \<Rightarrow> entities (loop init_state ps)
            | Some ce \<Rightarrow> (entities (loop init_state ps))(label_type ce \<mapsto>
                values_of (entities (loop init_state ps)) (label_type ce) @
                  [py_join (lit '' '') (current_text (loop init_state ps))])) \<and>
         (\<forall>k. length (values_of (grouped ps) k) =
              length (filter (\<lambda>(token, label). token \<notin> set skip_tokens \<and>
                        py_startswith label (lit ''B-'') \<and> label_type label = k) ps))"
proof -
  have l: "loop = grouping_loop_x" and g: "grouped = group_entities_x"
    using assms(1) by (auto simp: grouping_loop_e_eq group_entities_e_x fun_eq_iff)
  have open_in: "\<exists>t. (t, ce) \<in> set qs"
    if "current_entity (grouping_loop_x init_state qs) = Some ce" for qs ce
    using that
  proof (induction qs arbitrary: ce rule: rev_induct)
    case Nil
    then show ?case by (simp add: init_state_def)
  next
    case (snoc q qs)
    obtain t lb where q: "q = (t, lb)" by (cases q)
    have "grouping_loop_x init_state (qs @ [q]) =
          grouping_step_x (grouping_loop_x init_state qs) (t, lb)"
      by (simp add: grouping_loop_x_append q)
    then show ?case using snoc q
      by (auto simp: grouping_step_x.simps split: if_splits)
  qed
  have plain_open: "plain_type (label_type ce)"
    if oc: "current_entity (grouping_loop_x init_state (take i ps)) = Some ce" for i ce
  proof -
    obtain t where "(t, ce) \<in> set (take i ps)" using open_in [OF oc] by blast
    then have "(t, ce) \<in> set ps" by (rule in_set_takeD)
    then show ?thesis using assms(2) by auto
  qed
  have fl: "flushed (grouping_loop_x init_state (take i ps)) =
            (case current_entity (grouping_loop_x init_state (take i ps)) of
               None \<Rightarrow> entities (grouping_loop_x init_state (take i ps))
             | Some ce \<Rightarrow> (entities (grouping_loop_x init_state (take i ps)))(label_type ce \<mapsto>
                 values_of (entities (grouping_loop_x init_state (take i ps))) (label_type ce) @
                   [py_join (lit '' '') (current_text (grouping_loop_x init_state (take i ps)))]))"
    for i
    using plain_open [of i] by (intro flushed_plain [OF open_ok_prefix]) blast
  have step: "entities (grouping_loop_x init_state (take (Suc i) ps)) =
                flushed (grouping_loop_x init_state (take i ps)) \<and>
              current_entity (grouping_loop_x init_state (take (Suc i) ps)) = None \<and>
              current_text (grouping_loop_x init_state (take (Suc i) ps)) = []"
    if h: "i < length ps" "ps ! i = (token, label)" "token \<notin> set skip_tokens"
       "\<not> py_startswith label (lit ''B-'')"
       "\<not> (py_startswith label (lit ''I-'') \<and>
          (\<exists>ce. current_entity (grouping_loop_x init_state (take i ps)) = Some ce \<and>
                label_type label = label_type ce))"
    for i token label
  proof -
    have pl: "plain_type (label_type label)"
      using assms(2) h(1,2) by (metis nth_mem snd_conv)
    have "\<not> continues label ce"
      if ce: "current_entity (grouping_loop_x init_state (take i ps)) = Some ce" for ce
    proof (cases "py_startswith label (lit ''I-'')")
      case True
      then show ?thesis
        using continues_label_type [OF open_label_B [OF ce] True plain_open [OF ce] pl] h(5) ce
        by blast
    next
      case False
      then show ?thesis by (simp add: continues_def)
    qed
    then show ?thesis
      using at_other_label [OF h(1-4)] by simp
  qed
  have fin: "group_entities_x ps =
             (case current_entity (grouping_loop_x init_state ps) of
                None \<Rightarrow> entities (grouping_loop_x init_state ps)
              | Some ce \<Rightarrow> (entities (grouping_loop_x init_state ps))(label_type ce \<mapsto>
                  values_of (entities (grouping_loop_x init_state ps)) (label_type ce) @
                    [py_join (lit '' '') (current_text (grouping_loop_x init_state ps))]))"
  proof -
    have t: "take (length ps) ps = ps" by simp
    show ?thesis using fl [of "length ps"] unfolding t by (simp only: after_last_pair)
  qed
  have "filter (starts_entity k) ps =
        filter (\<lambda>(token, label). token \<notin> set skip_tokens \<and>
                  py_startswith label (lit ''B-'') \<and> label_type label = k) ps" for k
    using assms(2)
    by (intro filter_cong) (auto simp: starts_entity_def entity_type_label_type)
  then have cnt: "length (values_of (group_entities_x ps) k) =
        length (filter (\<lambda>(token, label). token \<notin> set skip_tokens \<and>
                  py_startswith label (lit ''B-'') \<and> label_type label = k) ps)" for k
    using group_count [of ps k] by simp
  show ?thesis
    unfolding l g Let_def using step fl fin cnt by (simp only:) blast
qed

text \<open>
  Claim C8, at an input where the code departs from it. The only label of the input is
  \<^verbatim>\<open>B-SUB-TOTAL\<close>, of type \<^verbatim>\<open>SUB-TOTAL\<close>; the only key of the grouped mapping is
  \<^verbatim>\<open>SUTOTAL\<close>, which is the type of no label of the input.
\<close>

theorem entity_key_is_no_label_type:
  "group_entities_x [(288 # lit ''12.00'', lit ''B-SUB-TOTAL'')] (lit ''SUTOTAL'')
     = Some [lit ''12.00''] \<and>
   group_entities_x [(288 # lit ''12.00'', lit ''B-SUB-TOTAL'')] (lit ''SUB-TOTAL'') = None \<and>
   group_entities_e [(288 # lit ''12.00'', lit ''B-SUB-TOTAL'')] (lit ''SUTOTAL'')
     = Some [lit ''12.00''] \<and>
   label_type (lit ''B-SUB-TOTAL'') = lit ''SUB-TOTAL''"
  by (simp add: group_entities_e_x) (simp add: run_simps label_type_def)

text \<open>
  Where the types of the labels are plain, the code does what C8 says: every key is the
  type of a label that starts with \<^verbatim>\<open>B-\<close> at a position that is not passed over, and
  every value is a non-empty list.
\<close>

lemma entity_keys_on_plain_types:
  assumes "grouped = group_entities_e \<or> grouped = group_entities_x"
    and "\<forall>p \<in> set ps. plain_type (label_type (snd p))"
    and "grouped ps k = Some vs"
  shows "vs \<noteq> [] \<and>
         (\<exists>(token, label) \<in> set ps.
            token \<notin> set skip_tokens \<and> py_startswith label (lit ''B-'') \<and> k = label_type label)"
proof -
  have g: "group_entities_x ps k = Some vs"
    using assms(1,3) by (auto simp: group_entities_e_x)
  obtain p where p: "p \<in> set ps" "starts_entity k p" and ne: "vs \<noteq> []"
    using keys_from_starts [OF g] by blast
  have "entity_type (snd p) = label_type (snd p)"
    using p assms(2) by (intro entity_type_label_type) (auto simp: starts_entity_def)
  then show ?thesis using p ne
    by (cases p) (auto simp: starts_entity_def)
qed

section \<open>Facts about the formatter and the predictor\<close>

lemma foldl_bullets:
  "foldl (\<lambda>ls item. ls @ [lit ''- '' @ item]) acc items = acc @ map (\<lambda>v. lit ''- '' @ v) items"
  by (induction items arbitrary: acc) simp_all

lemma format_output_x_report:
  assumes "ents (lit ''STORE'') \<noteq> Some []" and "ents (lit ''DATE'') \<noteq> Some []"
    and "ents (lit ''TOTAL'') \<noteq> Some []"
  shows "format_output_x ents =
         Inr (if report_lines ents = [] then no_entities_message
              else py_join [10] (report_lines ents))"
proof -
  have s: "(case ents (lit ''STORE'') of
              None \<Rightarrow> Inr []
            | Some vs \<Rightarrow> (case vs of [] \<Rightarrow> Inl IndexError | v # _ \<Rightarrow> Inr ([] @ [lit ''# '' @ v])))
           = Inr (first_value_line (lit ''# '') (ents (lit ''STORE'')))"
    using assms(1) by (simp add: first_value_line_def split: option.splits list.splits)
  have d: "(case ents (lit ''DATE'') of
              None \<Rightarrow> Inr ls
            | Some vs \<Rightarrow> (case vs of [] \<Rightarrow> Inl IndexError
                                    | v # _ \<Rightarrow> Inr (ls @ [lit ''Date: '' @ v])))
           = Inr (ls @ first_value_line (lit ''Date: '') (ents (lit ''DATE'')))" for ls
    using assms(2) by (simp add: first_value_line_def split: option.splits list.splits)
  have i: "(case ents (lit ''ITEM'') of
              None \<Rightarrow> ls
            | Some items \<Rightarrow>
                foldl (\<lambda>ls item. ls @ [lit ''- '' @ item]) (ls @ [10 # lit ''## Items'']) items)
           = ls @ bulleted_section (10 # lit ''## Items'') (ents (lit ''ITEM''))" for ls
    by (simp add: bulleted_section_def foldl_bullets split: option.splits)
  have p: "(case ents (lit ''PRICE'') of
              None \<Rightarrow> ls
            | Some prices \<Rightarrow>
                foldl (\<lambda>ls price. ls @ [lit ''- '' @ price]) (ls @ [10 # lit ''## Prices'']) prices)
           = ls @ bulleted_section (10 # lit ''## Prices'') (ents (lit ''PRICE''))" for ls
    by (simp add: bulleted_section_def foldl_bullets split: option.splits)
  have t: "(case ents (lit ''TOTAL'') of
              None \<Rightarrow> Inr ls
            | Some vs \<Rightarrow> (case vs of [] \<Rightarrow> Inl IndexError
                                    | v # _ \<Rightarrow> Inr (ls @ [10 # lit ''## Total: '' @ v])))
           = Inr (ls @ first_value_line (10 # lit ''## Total: '') (ents (lit ''TOTAL'')))" for ls
    using assms(3) by (simp add: first_value_line_def split: option.splits list.splits)
  show ?thesis
    unfolding format_output_x_def s d i p t Let_def
    by (simp add: report_lines_def no_entities_message_def)
qed

lemma first_value_line_empty:
  "vo \<noteq> Some [] \<Longrightarrow> first_value_line prefix vo = [] \<longleftrightarrow> vo = None"
  by (auto simp: first_value_line_def split: option.splits list.splits)

lemma bulleted_section_empty: "bulleted_section heading vo = [] \<longleftrightarrow> vo = None"
  by (auto simp: bulleted_section_def split: option.splits)

lemma report_lines_empty:
  assumes "ents (lit ''STORE'') \<noteq> Some []" and "ents (lit ''DATE'') \<noteq> Some []"
    and "ents (lit ''TOTAL'') \<noteq> Some []"
  shows "report_lines ents = [] \<longleftrightarrow>
         ents (lit ''STORE'') = None \<and> ents (lit ''DATE'') = None \<and> ents (lit ''ITEM'') = None \<and>
         ents (lit ''PRICE'') = None \<and> ents (lit ''TOTAL'') = None"
  using assms by (simp add: report_lines_def first_value_line_empty bulleted_section_empty)

lemma first_value_line_start:
  "prefix \<noteq> [] \<Longrightarrow> hd prefix \<in> set [35, 68, 10] \<Longrightarrow> first_value_line prefix vo = l # ls \<Longrightarrow>
   line_start_ok l"
  by (cases prefix) (auto simp: first_value_line_def line_start_ok_def split: option.splits list.splits)

lemma bulleted_section_start:
  "bulleted_section (10 # heading) vo = l # ls \<Longrightarrow> line_start_ok l"
  by (auto simp: bulleted_section_def line_start_ok_def split: option.splits)

lemma report_lines_start: "report_lines ents = l # ls \<Longrightarrow> line_start_ok l"
  unfolding report_lines_def
  by (auto simp: append_eq_Cons_conv lit_def
      dest!: first_value_line_start [rotated 2] bulleted_section_start)

lemma py_join_start: "line_start_ok l \<Longrightarrow> py_join sep (l # ls) \<noteq> no_entities_message"
  by (cases l; cases ls) (auto simp: line_start_ok_def no_entities_message_def lit_def)

lemma report_never_message:
  "report_lines ents \<noteq> [] \<Longrightarrow> py_join [10] (report_lines ents) \<noteq> no_entities_message"
  by (cases "report_lines ents") (auto dest: report_lines_start py_join_start)

lemma format_grouped_ok:
  "\<exists>text. format_output_x (group_entities_x ps) = Inr text"
proof -
  have "group_entities_x ps k \<noteq> Some []" for k
    using values_nonempty_group [of ps] by (auto simp: values_nonempty_def)
  then show ?thesis by (simp add: format_output_x_report)
qed

lemma py_join_head: "py_join sep ((c # cs) # ls) = c # tl (py_join sep ((c # cs) # ls))"
  by (cases ls) simp_all

lemma format_grouped_start:
  assumes "format_output_x (group_entities_x ps) = Inr t"
  shows "\<exists>c cs. t = c # cs \<and> c \<in> set [35, 68, 10, 78]"
proof -
  have ne: "group_entities_x ps k \<noteq> Some []" for k
    using values_nonempty_group [of ps] by (auto simp: values_nonempty_def)
  have t: "t = (if report_lines (group_entities_x ps) = [] then no_entities_message
                else py_join [10] (report_lines (group_entities_x ps)))"
    using assms by (simp add: format_output_x_report ne)
  show ?thesis
  proof (cases "report_lines (group_entities_x ps)")
    case Nil
    then show ?thesis using t by (simp add: no_entities_message_def lit_def)
  next
    case (Cons l ls)
    then have "line_start_ok l" by (rule report_lines_start)
    then obtain c cs where l: "l = c # cs" "c \<in> set [35, 68, 10]"
      by (cases l) (auto simp: line_start_ok_def)
    have "t = c # tl (py_join [10] ((c # cs) # ls))"
      using t Cons l(1) py_join_head [of "[10]" c cs ls] by simp
    then show ?thesis using l(2) by auto
  qed
qed

lemma post_inference_e_x: "post_inference_e toks labels = post_inference_x toks labels"
  by (simp add: post_inference_e_def post_inference_x_def group_entities_e_x format_output_e_x)

lemma grouping_loop_x_skipped:
  "grouping_loop_x s (filter (\<lambda>p. fst p \<notin> set skip_tokens) ps) = grouping_loop_x s ps"
  by (induction ps arbitrary: s) (auto simp: step_x_skip)

section \<open>The claims about the formatter and the predictors\<close>

text \<open>
  Claim C4, at an input the code receives. The tokenizer the predictors load is
  \<^verbatim>\<open>RobertaTokenizer\<close>, whose start, end and padding markers are \<^verbatim>\<open><s>\<close>, \<^verbatim>\<open></s>\<close> and
  \<^verbatim>\<open><pad>\<close>; the loop passes over \<^verbatim>\<open>[CLS]\<close>, \<^verbatim>\<open>[SEP]\<close> and \<^verbatim>\<open>[PAD]\<close>. The markers
  of the tokenizer are therefore grouped like any other token: here they end up as entity
  texts, and the mapping changes when their pairs are removed.
\<close>

theorem tokenizer_markers_are_grouped:
  "group_entities_x
     [(lit ''<s>'', lit ''B-MENU.NM''), (288 # lit ''Coffee'', lit ''B-MENU.NM''),
      (lit ''</s>'', lit ''O''), (lit ''<pad>'', lit ''B-MENU.PRICE'')] (lit ''MENU.NM'')
     = Some [lit ''<s>'', lit ''Coffee''] \<and>
   group_entities_x
     [(lit ''<s>'', lit ''B-MENU.NM''), (288 # lit ''Coffee'', lit ''B-MENU.NM''),
      (lit ''</s>'', lit ''O''), (lit ''<pad>'', lit ''B-MENU.PRICE'')] (lit ''MENU.PRICE'')
     = Some [lit ''<pad>''] \<and>
   group_entities_x [(288 # lit ''Coffee'', lit ''B-MENU.NM'')] (lit ''MENU.NM'')
     = Some [lit ''Coffee''] \<and>
   group_entities_x [(288 # lit ''Coffee'', lit ''B-MENU.NM'')] (lit ''MENU.PRICE'') = None"
  by (simp add: run_simps)

text \<open>What the loop does skip can be removed from the input without changing the result.\<close>

lemma listed_tokens_removable:
  "group_entities_x (filter (\<lambda>p. fst p \<notin> set skip_tokens) ps) = group_entities_x ps \<and>
   group_entities_e (filter (\<lambda>p. fst p \<notin> set skip_tokens) ps) = group_entities_e ps"
  by (simp add: group_entities_e_x group_entities_x_def grouping_loop_x_skipped)

text \<open>
  Claim C5, at an input where the code departs from it. Three entities with the labels
  of the CORD model are detected and grouped, and the formatter still emits
  \<^verbatim>\<open>No structured entities detected.\<close>: it chooses the message when it has printed no
  line, and it prints lines only for the keys \<^verbatim>\<open>STORE\<close>, \<^verbatim>\<open>DATE\<close>, \<^verbatim>\<open>ITEM\<close>,
  \<^verbatim>\<open>PRICE\<close> and \<^verbatim>\<open>TOTAL\<close>.
\<close>

theorem message_despite_detected_entities:
  "group_entities_x
     [(288 # lit ''Coffee'', lit ''B-MENU.NM''), (288 # lit ''4.50'', lit ''B-MENU.PRICE''),
      (288 # lit ''4.50'', lit ''B-TOTAL.TOTAL_PRICE'')] (lit ''MENU.NM'') = Some [lit ''Coffee''] \<and>
   group_entities_x
     [(288 # lit ''Coffee'', lit ''B-MENU.NM''), (288 # lit ''4.50'', lit ''B-MENU.PRICE''),
      (288 # lit ''4.50'', lit ''B-TOTAL.TOTAL_PRICE'')] (lit ''MENU.PRICE'') = Some [lit ''4.50''] \<and>
   group_entities_x
     [(288 # lit ''Coffee'', lit ''B-MENU.NM''), (288 # lit ''4.50'', lit ''B-MENU.PRICE''),
      (288 # lit ''4.50'', lit ''B-TOTAL.TOTAL_PRICE'')] (lit ''TOTAL.TOTAL_PRICE'')
     = Some [lit ''4.50''] \<and>
   format_output_x (group_entities_x
     [(288 # lit ''Coffee'', lit ''B-MENU.NM''), (288 # lit ''4.50'', lit ''B-MENU.PRICE''),
      (288 # lit ''4.50'', lit ''B-TOTAL.TOTAL_PRICE'')])
     = Inr (lit ''No structured entities detected.'') \<and>
   format_output_e (group_entities_e
     [(288 # lit ''Coffee'', lit ''B-MENU.NM''), (288 # lit ''4.50'', lit ''B-MENU.PRICE''),
      (288 # lit ''4.50'', lit ''B-TOTAL.TOTAL_PRICE'')])
     = Inr (lit ''No structured entities detected.'')"
  by (simp add: group_entities_e_x format_output_e_x) (simp add: run_simps format_output_x_def)

text \<open>
  The sections themselves are emitted as C5 says: on a mapping whose \<^verbatim>\<open>STORE\<close>,
  \<^verbatim>\<open>DATE\<close> and \<^verbatim>\<open>TOTAL\<close> lists, when present, are not empty (every list the pass
  builds is non-empty), either formatter returns the lines of \<open>report_lines\<close> joined by
  newlines; and on the empty mapping it returns the fixed message.
\<close>

lemma formatter_sections:
  assumes "fmt = format_output_e \<or> fmt = format_output_x"
    and "ents (lit ''STORE'') \<noteq> Some []" and "ents (lit ''DATE'') \<noteq> Some []"
    and "ents (lit ''TOTAL'') \<noteq> Some []"
    and "report_lines ents \<noteq> []"
  shows "fmt ents = Inr (py_join [10] (report_lines ents))"
  using assms by (auto simp: format_output_e_x format_output_x_report)

lemma nothing_detected_message:
  "format_output_x Map.empty = Inr no_entities_message \<and>
   format_output_e Map.empty = Inr no_entities_message"
  by (simp add: format_output_e_x format_output_x_report report_lines_empty)

text \<open>
  Claim C6, as the code has it by design. For non-empty words and boxes,
  \<^verbatim>\<open>process_receipt\<close> returns the result with an empty mapping, no tokens, no predictions
  and the text that reports both counts exactly when the lengths differ, whatever
  inference would do, and raises nothing then. When the lengths are equal it runs
  inference, raises what inference raises and otherwise returns what grouping and
  formatting give. So the routine fails where inference fails, not only on mismatched
  lengths.
\<close>

theorem length_mismatch_reported:
  assumes "words \<noteq> []" and "boxes \<noteq> []"
  shows "(process_receipt_x infer img words boxes =
            Inr \<lparr>res_entities = Map.empty,
                 formatted_text = lit ''Error: words ('' @ py_str_of_nat (length words) @
                   lit '') and boxes ('' @ py_str_of_nat (length boxes) @ lit '') count mismatch.'',
                 tokens = [], predictions = []\<rparr>
          \<longleftrightarrow> length words \<noteq> length boxes) \<and>
         (length words = length boxes \<longrightarrow>
            process_receipt_x infer img words boxes =
              (case infer img words boxes of
                 Inl e \<Rightarrow> Inl e
               | Inr (toks, predicted_labels) \<Rightarrow> post_inference_x toks predicted_labels)) \<and>
         (\<forall>e. process_receipt_x infer img words boxes = Inl e \<longrightarrow>
              length words = length boxes \<and> infer img words boxes = Inl e)"
proof -
  let ?report = "\<lparr>res_entities = Map.empty,
                 formatted_text = lit ''Error: words ('' @ py_str_of_nat (length words) @
                   lit '') and boxes ('' @ py_str_of_nat (length boxes) @ lit '') count mismatch.'',
                 tokens = [], predictions = []\<rparr>"
  have differ: "process_receipt_x infer img words boxes = Inr ?report"
    if "length words \<noteq> length boxes"
    using that assms by (simp add: process_receipt_x_def)
  have equal: "process_receipt_x infer img words boxes =
                 (case infer img words boxes of
                    Inl e \<Rightarrow> Inl e
                  | Inr (toks, predicted_labels) \<Rightarrow> post_inference_x toks predicted_labels)"
    if "length words = length boxes"
    using that assms by (simp add: process_receipt_x_def)
  have post: "post_inference_x toks labels \<noteq> Inr ?report \<and>
              (\<forall>e. post_inference_x toks labels \<noteq> Inl e)" for toks labels
  proof -
    obtain out where out: "format_output_x (group_entities_x (zip toks labels)) = Inr out"
      using format_grouped_ok by blast
    obtain c cs where c: "out = c # cs" "c \<in> set [35, 68, 10, 78]"
      using format_grouped_start [OF out] by blast
    have "formatted_text ?report = 69 # tl (formatted_text ?report)"
      by (simp add: lit_def)
    then have "out \<noteq> formatted_text ?report"
      using c by (metis list.inject list.set_intros(1) set_ConsD empty_iff empty_set
          numeral_eq_iff semiring_norm(88) semiring_norm(89) semiring_norm(90) num.distinct)
    then show ?thesis
      using out by (auto simp: post_inference_x_def)
  qed
  have no_report: "process_receipt_x infer img words boxes \<noteq> Inr ?report"
    if "length words = length boxes"
    using equal [OF that] post by (auto split: sum.splits prod.splits)
  have raised: "length words = length boxes \<and> infer img words boxes = Inl e"
    if "process_receipt_x infer img words boxes = Inl e" for e
  proof (cases "length words = length boxes")
    case True
    then show ?thesis
      using that equal [OF True] post by (auto split: sum.splits prod.splits)
  next
    case False
    then show ?thesis using that differ by simp
  qed
  show ?thesis using differ equal no_report raised by blast
qed

theorem length_mismatch_reported_witness:
  "[lit ''Milk'', lit ''2.50'', lit ''Tea''] \<noteq> [] \<and> [[0, 0, 10, 10], [20, 0, 30, 10 :: int]] \<noteq> [] \<and>
   length [lit ''Milk'', lit ''2.50'', lit ''Tea''] \<noteq> length [[0, 0, 10, 10], [20, 0, 30, 10 :: int]] \<and>
   process_receipt_x (\<lambda>_ _ _. Inl RuntimeError) ()
       [lit ''Milk'', lit ''2.50'', lit ''Tea''] [[0, 0, 10, 10], [20, 0, 30, 10]] =
     Inr \<lparr>res_entities = Map.empty,
          formatted_text = lit ''Error: words (3) and boxes (2) count mismatch.'',
          tokens = [], predictions = []\<rparr>"
  using length_mismatch_reported [of "[lit ''Milk'', lit ''2.50'', lit ''Tea'']"
      "[[0, 0, 10, 10], [20, 0, 30, 10]]" "\<lambda>_ _ _. Inl RuntimeError" "()"]
  by (simp add: lit_def py_str_of_nat.simps)

text \<open>
  Where C6 as worded fails. Lines 53-87 are part of the routine. When they raise, for
  instance \<^verbatim>\<open>KeyError\<close> at line 74 for a tokenizer output without a \<^verbatim>\<open>bbox\<close> entry, the
  routine raises on words and boxes of equal length: mismatched lengths are not its only
  failure mode.
\<close>

theorem length_mismatch_counterexample:
  "length [lit ''Milk''] = length [[0, 0, 10, 10 :: int]] \<and>
   process_receipt_x (\<lambda>_ _ _. Inl KeyError) () [lit ''Milk''] [[0, 0, 10, 10]] = Inl KeyError"
  by (simp add: process_receipt_x_def)

text \<open>
  Claim C7. The two copies of the decoder and formatter agree: on every sequence of pairs
  they build the same mapping, on every mapping the same text or the same error, and after
  inference they return the same result.
\<close>

theorem copies_agree:
  "group_entities_e ps = group_entities_x ps \<and>
   format_output_e ents = format_output_x ents \<and>
   format_output_e (group_entities_e ps) = format_output_x (group_entities_x ps) \<and>
   post_inference_e toks labels = post_inference_x toks labels"
  by (simp add: group_entities_e_x format_output_e_x post_inference_e_x)

text \<open>
  Claim C10. When the words or the boxes are empty, \<^verbatim>\<open>process_receipt\<close> of the
  external-OCR predictor returns, whatever inference would do and before the lengths are
  compared, the result with an empty mapping, the text \<^verbatim>\<open>No text provided.\<close> and no
  tokens or predictions.
\<close>

theorem empty_input_reported:
  assumes "words = [] \<or> boxes = []"
  shows "process_receipt_x infer img words boxes =
           Inr \<lparr>res_entities = Map.empty, formatted_text = lit ''No text provided.'',
                tokens = [], predictions = []\<rparr>"
  using assms by (auto simp: process_receipt_x_def)

theorem empty_input_reported_witness:
  "(([] :: pystr list) = [] \<or> [[0, 0, 10, 10 :: int]] = []) \<and>
   length ([] :: pystr list) \<noteq> length [[0, 0, 10, 10 :: int]] \<and>
   process_receipt_x (\<lambda>_ _ _. Inl RuntimeError) () [] [[0, 0, 10, 10]] =
     Inr \<lparr>res_entities = Map.empty, formatted_text = lit ''No text provided.'',
          tokens = [], predictions = []\<rparr>"
  using empty_input_reported [of "[]" "[[0, 0, 10, 10]]" "\<lambda>_ _ _. Inl RuntimeError" "()"]
  by simp

section \<open>The claim about the client's box estimator\<close>

lemma nonspace_runs_empty:
  "nonspace_runs cur s = [] \<longleftrightarrow> cur = [] \<and> (\<forall>c \<in> set s. py_isspace c)"
  by (induction s arbitrary: cur) auto

lemma word_box_within:
  assumes "1 \<le> words_per_line" and "1 \<le> image_width" and "1 \<le> image_height"
  shows "\<exists>b. word_box words_per_line line_height char_width image_width image_height i word = Inr b \<and>
             box_within image_width image_height b"
  using assms
  by (auto simp: word_box_def and_then_def py_floordiv_def py_mod_def box_within_def Let_def)

lemma word_boxes_within:
  assumes "1 \<le> words_per_line" and "1 \<le> image_width" and "1 \<le> image_height"
  shows "\<exists>boxes. word_boxes words_per_line line_height char_width image_width image_height i ws
                   = Inr boxes \<and>
                 length boxes = length ws \<and>
                 (\<forall>b \<in> set boxes. box_within image_width image_height b)"
proof (induction ws arbitrary: i)
  case Nil
  then show ?case by simp
next
  case (Cons word ws)
  obtain b where b: "word_box words_per_line line_height char_width image_width image_height i word
                       = Inr b" "box_within image_width image_height b"
    using word_box_within [OF assms] by blast
  obtain boxes where bs:
    "word_boxes words_per_line line_height char_width image_width image_height (i + 1) ws = Inr boxes"
    "length boxes = length ws" "\<forall>b \<in> set boxes. box_within image_width image_height b"
    using Cons.IH [of "i + 1"] by blast
  show ?case using b bs by (simp add: and_then_def)
qed

text \<open>
  Claim C9. For every text and every image at least one pixel wide and high,
  \<^verbatim>\<open>extract_words_and_boxes\<close> returns (it raises neither on a division nor on a maximum)
  as many boxes as words, none of either when the text holds only whitespace, and every
  box \<^verbatim>\<open>[x0, y0, x1, y1]\<close> has \<open>0 \<le> x0 < x1 \<le> image_width\<close> and
  \<open>0 \<le> y0 < y1 \<le> image_height\<close>.
\<close>

theorem estimated_boxes_within_image:
  assumes "1 \<le> image_width" and "1 \<le> image_height"
  shows "\<exists>words boxes.
           extract_words_and_boxes root text image_width image_height = Inr (words, boxes) \<and>
           words = py_findall_nonspace text \<and>
           length words = length boxes \<and>
           ((\<forall>c \<in> set text. py_isspace c) \<longrightarrow> words = [] \<and> boxes = []) \<and>
           (\<forall>b \<in> set boxes. box_within image_width image_height b)"
proof (cases "py_findall_nonspace text = []")
  case True
  then show ?thesis by (simp add: extract_words_and_boxes_def)
next
  case False
  define words where "words = py_findall_nonspace text"
  define words_per_line where "words_per_line = max 1 (root (length words))"
  have w: "1 \<le> words_per_line" by (simp add: words_per_line_def)
  have ne: "words \<noteq> []" using False by (simp add: words_def)
  have nsp: "\<not> (\<forall>c \<in> set text. py_isspace c)"
    using False by (simp add: py_findall_nonspace_def nonspace_runs_empty)
  have m: "\<exists>longest. py_max (map (\<lambda>w. int (length w)) words) = Inr longest"
    using ne by (cases words) (simp_all add: py_max_def)
  then obtain longest where longest: "py_max (map (\<lambda>w. int (length w)) words) = Inr longest"
    by blast
  define num_lines where "num_lines = (int (length words) + words_per_line - 1) div words_per_line"
  define line_height where "line_height = image_height div max num_lines 1"
  define char_width where "char_width = image_width div max longest 1"
  obtain boxes where bs:
    "word_boxes words_per_line line_height char_width image_width image_height 0 words = Inr boxes"
    "length boxes = length words" "\<forall>b \<in> set boxes. box_within image_width image_height b"
    using word_boxes_within [OF w assms] by blast
  have nz: "max a 1 \<noteq> 0" for a :: int
    by (simp add: max_def)
  have "extract_words_and_boxes root text image_width image_height = Inr (words, boxes)"
    using ne w longest bs(1) nz
    unfolding extract_words_and_boxes_def Let_def words_def [symmetric]
      words_per_line_def [symmetric]
    by (simp add: and_then_def py_floordiv_def num_lines_def line_height_def char_width_def)
  then show ?thesis using bs(2,3) nsp by (auto simp: words_def)
qed

theorem estimated_boxes_within_image_witness:
  "(1::int) \<le> 100 \<and> (1::int) \<le> 50 \<and>
   extract_words_and_boxes (\<lambda>n. 1) (lit ''Milk  2.50 Tea'') 100 50 =
     Inr ([lit ''Milk'', lit ''2.50'', lit ''Tea''],
          [[0, 0, 100, 16], [0, 16, 100, 32], [0, 32, 75, 48]]) \<and>
   (\<exists>words boxes.
      extract_words_and_boxes (\<lambda>n. 1) (lit ''Milk  2.50 Tea'') 100 50 = Inr (words, boxes) \<and>
      length words = length boxes \<and> (\<forall>b \<in> set boxes. box_within 100 50 b))"
proof -
  have e: "extract_words_and_boxes (\<lambda>n. 1) (lit ''Milk  2.50 Tea'') 100 50 =
     Inr ([lit ''Milk'', lit ''2.50'', lit ''Tea''],
          [[0, 0, 100, 16], [0, 16, 100, 32], [0, 32, 75, 48]])"
    by (simp add: extract_words_and_boxes_def py_findall_nonspace_def lit_def py_isspace_def
        and_then_def py_floordiv_def py_mod_def py_max_def word_box_def Let_def)
  have w: "(1::int) \<le> 100" and h: "(1::int) \<le> 50"
    by simp_all
  show ?thesis
    using w h e estimated_boxes_within_image [OF w h, of "\<lambda>n. 1" "lit ''Milk  2.50 Tea''"]
    by blast
qed


end
